theory Spec2Isabelle
  imports Complex_Main "HOL-Library.Sublist"
begin

section \<open>Phoenix TTS: text sanitisation, synthesis dispatch and the playback queue\<close>

text \<open>
  A shallow embedding of \<^verbatim>\<open>main.py\<close>. A Python \<^verbatim>\<open>str\<close> is a sequence of Unicode
  code points, modelled as a list of naturals. Floating-point numbers are modelled with
  their rounding: a finite one is the rational number it denotes.
\<close>

type_synonym pystr = "nat list"

abbreviation py :: "string \<Rightarrow> pystr" where
  "py s \<equiv> map of_char s"

subsection \<open>Character classes of \<^verbatim>\<open>str.strip\<close> and of the pattern in \<^verbatim>\<open>handle_input\<close>\<close>

text \<open>
  Python's \<^verbatim>\<open>re\<close> on a \<^verbatim>\<open>str\<close> pattern and \<^verbatim>\<open>str.strip()\<close> classify characters with
  the Unicode database of the interpreter, which is not part of the repository. Its
  answers on the ASCII range are written out below; for the code points from 128 on
  they are taken as a parameter.
\<close>

record ucd =
  alnum_above :: "nat \<Rightarrow> bool"
  space_above :: "nat \<Rightarrow> bool"

definition isspace :: "ucd \<Rightarrow> nat \<Rightarrow> bool" where
  "isspace U c =
     (if c < 128 then (9 \<le> c \<and> c \<le> 13) \<or> (28 \<le> c \<and> c \<le> 32)
      else space_above U c)"

definition isalnum :: "ucd \<Rightarrow> nat \<Rightarrow> bool" where
  "isalnum U c =
     (if c < 128 then (48 \<le> c \<and> c \<le> 57) \<or> (65 \<le> c \<and> c \<le> 90) \<or> (97 \<le> c \<and> c \<le> 122)
      else alnum_above U c)"

text \<open>\<^verbatim>\<open>\w\<close>: alphanumeric or the underscore.\<close>

definition word_char :: "ucd \<Rightarrow> nat \<Rightarrow> bool" where
  "word_char U c = (isalnum U c \<or> c = 95)"

text \<open>
  The characters the class \<^verbatim>\<open>[^\w\s.,!?"\']\<close> does not match, that is, the ones
  \<^verbatim>\<open>re.sub\<close> keeps: \<^verbatim>\<open>\w\<close>, \<^verbatim>\<open>\s\<close>, and the six literals
  \<^verbatim>\<open>.\<close> (46), \<^verbatim>\<open>,\<close> (44), \<^verbatim>\<open>!\<close> (33), \<^verbatim>\<open>?\<close> (63), \<^verbatim>\<open>"\<close> (34), \<^verbatim>\<open>'\<close> (39).
\<close>

definition kept :: "ucd \<Rightarrow> nat \<Rightarrow> bool" where
  "kept U c =
     (word_char U c \<or> isspace U c \<or> c = 46 \<or> c = 44 \<or> c = 33 \<or> c = 63 \<or> c = 34 \<or> c = 39)"

text \<open>\<^verbatim>\<open>text.strip()\<close>: leading and trailing whitespace removed.\<close>

definition strip :: "ucd \<Rightarrow> pystr \<Rightarrow> pystr" where
  "strip U s = rev (dropWhile (isspace U) (rev (dropWhile (isspace U) s)))"

text \<open>\<^verbatim>\<open>re.sub(r'[^\w\s.,!?"\']', '', text)\<close>: every character outside the class is deleted.\<close>

definition re_sub :: "ucd \<Rightarrow> pystr \<Rightarrow> pystr" where
  "re_sub U s = filter (kept U) s"

text \<open>The first two lines of \<^verbatim>\<open>handle_input\<close>, applied to the content of the input field.\<close>

definition sanitize :: "ucd \<Rightarrow> pystr \<Rightarrow> pystr" where
  "sanitize U s = re_sub U (strip U s)"

text \<open>A database with nothing beyond ASCII, for evaluating ASCII examples.\<close>

definition ascii_ucd :: ucd where
  "ascii_ucd = \<lparr>alnum_above = (\<lambda>c. False), space_above = (\<lambda>c. False)\<rparr>"

subsection \<open>Exceptions\<close>

text \<open>
  The exceptions the modelled paths can raise. All of them are subclasses of Python's
  \<^verbatim>\<open>Exception\<close>. \<open>OSError\<close> stands for the failures of \<^verbatim>\<open>open\<close> other than a missing
  file; \<open>External\<close> is whatever the Kokoro model or the sound device raises, with its
  message.
\<close>

datatype exn =
    AttributeError | ValueError | TypeError | OverflowError
  | UnicodeDecodeError | OSError | External pystr

subsection \<open>Floating-point arithmetic\<close>

text \<open>
  Python's \<^verbatim>\<open>float\<close> is IEEE 754 binary64 and the voice arrays of the Kokoro voice bank
  are numpy \<^verbatim>\<open>float32\<close>. A value is a finite number, an infinity with its sign
  (\<open>True\<close> for the positive one), or a NaN. The sign of a zero is not modelled.
\<close>

datatype fp = Num rat | Infty bool | NaN

record format =
  precision :: nat
  emin :: int
  emax :: int

definition binary32 :: format where
  "binary32 = \<lparr>precision = 24, emin = - 126, emax = 127\<rparr>"

definition binary64 :: format where
  "binary64 = \<lparr>precision = 53, emin = - 1022, emax = 1023\<rparr>"

definition pow2 :: "int \<Rightarrow> rat" where
  "pow2 k = (if 0 \<le> k then 2 ^ nat k else 1 / 2 ^ nat (- k))"

text \<open>The number of binary digits of a positive integer.\<close>

function bit_length :: "int \<Rightarrow> nat" where
  "bit_length n = (if n \<le> 0 then 0 else Suc (bit_length (n div 2)))"
  by pat_completeness auto
termination
  by (relation "measure nat") auto

declare bit_length.simps [simp del]

text \<open>The exponent \<open>e\<close> with \<open>2 ^ e \<le> \<bar>x\<bar> < 2 ^ (e + 1)\<close>, for \<open>x\<close> other than 0.\<close>

definition ilog2 :: "rat \<Rightarrow> int" where
  "ilog2 x =
     (case quotient_of \<bar>x\<bar> of
        (p, q) \<Rightarrow>
          (let d = int (bit_length p) - int (bit_length q)
           in if pow2 d \<le> \<bar>x\<bar> then d else d - 1))"

definition round_half_even :: "rat \<Rightarrow> int" where
  "round_half_even r =
     (let n = \<lfloor>r\<rfloor>; d = r - of_int n
      in if d < 1 / 2 then n
         else if 1 / 2 < d then n + 1
         else if even n then n else n + 1)"

text \<open>
  Rounding to nearest, ties to even, in a format: the spacing of the representable
  numbers around \<open>x\<close> is fixed by the exponent of \<open>x\<close>, or by the least exponent for
  the subnormal ones, and a result beyond the largest finite number is an infinity.
\<close>

definition round_to :: "format \<Rightarrow> rat \<Rightarrow> fp" where
  "round_to F x =
     (if x = 0 then Num 0
      else
        (let quantum = pow2 (max (ilog2 x) (emin F) - (int (precision F) - 1));
             r = of_int (round_half_even (x / quantum)) * quantum
         in if pow2 (emax F + 1) \<le> \<bar>r\<bar> then Infty (0 < x) else Num r))"

fun fneg :: "fp \<Rightarrow> fp" where
  "fneg (Num x) = Num (- x)"
| "fneg (Infty s) = Infty (\<not> s)"
| "fneg NaN = NaN"

fun fmul :: "format \<Rightarrow> fp \<Rightarrow> fp \<Rightarrow> fp" where
  "fmul F (Num x) (Num y) = round_to F (x * y)"
| "fmul F (Infty s) (Num y) = (if y = 0 then NaN else Infty (s = (0 < y)))"
| "fmul F (Num x) (Infty t) = (if x = 0 then NaN else Infty (t = (0 < x)))"
| "fmul F (Infty s) (Infty t) = Infty (s = t)"
| "fmul F a b = NaN"

fun fadd :: "format \<Rightarrow> fp \<Rightarrow> fp \<Rightarrow> fp" where
  "fadd F (Num x) (Num y) = round_to F (x + y)"
| "fadd F (Infty s) (Num y) = Infty s"
| "fadd F (Num x) (Infty t) = Infty t"
| "fadd F (Infty s) (Infty t) = (if s = t then Infty s else NaN)"
| "fadd F a b = NaN"

text \<open>A Python \<^verbatim>\<open>float\<close> converted to \<^verbatim>\<open>float32\<close>.\<close>

fun to_float32 :: "fp \<Rightarrow> fp" where
  "to_float32 (Num x) = round_to binary32 x"
| "to_float32 a = a"

text \<open>
  \<^verbatim>\<open>a / b\<close> on Python integers: the correctly rounded quotient, \<^verbatim>\<open>OverflowError\<close>
  when it is too large for a \<^verbatim>\<open>float\<close>. The divisor of the source is the constant 100.
\<close>

definition int_truediv :: "int \<Rightarrow> int \<Rightarrow> exn + fp" where
  "int_truediv a b =
     (case round_to binary64 (of_int a / of_int b) of
        Num q \<Rightarrow> Inr (Num q)
      | _ \<Rightarrow> Inl OverflowError)"

text \<open>A finite number a \<^verbatim>\<open>float32\<close> array can hold.\<close>

fun finite32 :: "fp \<Rightarrow> bool" where
  "finite32 (Num x) = (round_to binary32 x = Num x)"
| "finite32 a = False"

subsection \<open>The external collaborators\<close>

type_synonym voice = "fp list"

text \<open>An audio buffer is the pair \<^verbatim>\<open>(samples, sample_rate)\<close>.\<close>

type_synonym buffer = "real list \<times> int"

text \<open>
  The Kokoro model is a library outside the repository: its two methods are the fields
  of a record. \<^verbatim>\<open>create(text, voice, speed, lang)\<close> returns \<^verbatim>\<open>(samples, sample_rate)\<close>.
\<close>

record kokoro =
  get_voice_style :: "pystr \<Rightarrow> exn + voice"
  create :: "pystr \<Rightarrow> voice \<Rightarrow> real \<Rightarrow> pystr \<Rightarrow> exn + buffer"

subsection \<open>\<^verbatim>\<open>TTSThread\<close>\<close>

record tts_thread =
  tts_kokoro :: kokoro
  tts_text :: pystr
  tts_voice1 :: voice
  tts_voice2 :: voice
  tts_blend_value :: int

text \<open>
  numpy on \<^verbatim>\<open>float32\<close> arrays: an array times a Python \<^verbatim>\<open>float\<close>, which is converted
  to \<^verbatim>\<open>float32\<close> first, and the sum of two arrays with broadcasting. Every component
  is rounded to \<^verbatim>\<open>float32\<close>.
\<close>

definition np_scale :: "voice \<Rightarrow> fp \<Rightarrow> voice" where
  "np_scale v c = map (\<lambda>x. fmul binary32 x (to_float32 c)) v"

definition np_add :: "voice \<Rightarrow> voice \<Rightarrow> exn + voice" where
  "np_add a b =
     (if length a = length b then Inr (map2 (fadd binary32) a b)
      else if length a = 1 then Inr (map (\<lambda>y. fadd binary32 (hd a) y) b)
      else if length b = 1 then Inr (map (\<lambda>x. fadd binary32 x (hd b)) a)
      else Inl ValueError)"

text \<open>
  Lines 45 and 46 of \<^verbatim>\<open>TTSThread.run\<close>: \<^verbatim>\<open>blend\<close> and \<^verbatim>\<open>1 - blend\<close> are Python
  floats.
\<close>

definition blended_voice :: "tts_thread \<Rightarrow> exn + voice" where
  "blended_voice t =
     (case int_truediv (tts_blend_value t) 100 of
        Inl e \<Rightarrow> Inl e
      | Inr blend \<Rightarrow>
          np_add (np_scale (tts_voice1 t) blend)
                 (np_scale (tts_voice2 t) (fadd binary64 (Num 1) (fneg blend))))"

text \<open>The arguments with which line 47 calls \<^verbatim>\<open>kokoro.create\<close>, when it is reached.\<close>

definition create_call :: "tts_thread \<Rightarrow> exn + (pystr \<times> voice \<times> real \<times> pystr)" where
  "create_call t =
     (case blended_voice t of
        Inl e \<Rightarrow> Inl e
      | Inr bv \<Rightarrow> Inr (tts_text t, bv, 1, py ''en-us''))"

text \<open>A line printed to the diagnostic output.\<close>

datatype out_line = Error_generating_TTS exn

text \<open>
  The signal is declared \<^verbatim>\<open>pyqtSignal(np.ndarray, int)\<close>: its second argument travels as
  a C \<^verbatim>\<open>int\<close> of 32 bits, and a Python integer outside that range wraps around.
\<close>

definition c_int :: "int \<Rightarrow> int" where
  "c_int r = (r + 2 ^ 31) mod 2 ^ 32 - 2 ^ 31"

text \<open>
  \<^verbatim>\<open>TTSThread.run\<close> returns normally in every case: the \<^verbatim>\<open>except Exception\<close> clause
  catches what the body raises. The result is what the thread leaves behind: the
  \<^verbatim>\<open>audio_ready\<close> emission as the slot receives it, if any, and the lines it printed.
\<close>

definition TTSThread_run :: "tts_thread \<Rightarrow> buffer option \<times> out_line list" where
  "TTSThread_run t =
     (case create_call t of
        Inl e \<Rightarrow> (None, [Error_generating_TTS e])
      | Inr (tx, bv, speed, lang) \<Rightarrow>
          (case create (tts_kokoro t) tx bv speed lang of
             Inl e \<Rightarrow> (None, [Error_generating_TTS e])
           | Inr (samples, sample_rate) \<Rightarrow> (Some (samples, c_int sample_rate), [])))"

subsection \<open>\<^verbatim>\<open>AudioThread\<close>\<close>

text \<open>
  The calls the playback worker makes on the sound device, in order:
  \<^verbatim>\<open>sd.play(samples, sample_rate)\<close> and the blocking \<^verbatim>\<open>sd.wait()\<close>.
\<close>

datatype dev_call = Play buffer | Wait

text \<open>
  \<^verbatim>\<open>sounddevice\<close> is a library outside the repository. What it does with a buffer,
  after the calls it has received so far, is a parameter: both calls return, or
  \<^verbatim>\<open>sd.play\<close> raises (a sample rate the device refuses, no output device), or
  \<^verbatim>\<open>sd.wait\<close> does.
\<close>

datatype sd_outcome = Returns | PlayRaises | WaitRaises

type_synonym sounddevice = "dev_call list \<Rightarrow> buffer \<Rightarrow> sd_outcome"

text \<open>
  Where the worker thread stands in \<^verbatim>\<open>run\<close>: about to test \<^verbatim>\<open>self.running\<close>, inside
  \<^verbatim>\<open>audio_queue.get(timeout=1)\<close>, or out of \<^verbatim>\<open>run\<close>, which it has left by the end of
  the loop or by an exception.
\<close>

datatype pc = AtLoop | InGet | Finished

record audio_thread =
  audio_queue :: "buffer list"
  running :: bool
  pc :: pc
  device :: "dev_call list"

text \<open>\<^verbatim>\<open>AudioThread()\<close> followed by \<^verbatim>\<open>start()\<close>.\<close>

definition AudioThread_start :: audio_thread where
  "AudioThread_start = \<lparr>audio_queue = [], running = True, pc = AtLoop, device = []\<rparr>"

text \<open>
  One step of the worker. In \<open>InGet\<close> an entry is taken if there is one; with an empty
  queue the step is the expiry of the one-second timeout, \<^verbatim>\<open>queue.Empty\<close>, and
  \<^verbatim>\<open>continue\<close>. The \<^verbatim>\<open>except\<close> clause names \<^verbatim>\<open>queue.Empty\<close> alone: an exception of
  \<^verbatim>\<open>sd.play\<close> or \<^verbatim>\<open>sd.wait\<close> ends \<^verbatim>\<open>run\<close>, with the entry already taken from the
  queue. \<^verbatim>\<open>task_done\<close> lowers the queue's count of unfinished tasks, which nothing in
  the program reads.
\<close>

definition worker_step :: "sounddevice \<Rightarrow> audio_thread \<Rightarrow> audio_thread" where
  "worker_step sd s =
     (case pc s of
        AtLoop \<Rightarrow> (if running s then s\<lparr>pc := InGet\<rparr> else s\<lparr>pc := Finished\<rparr>)
      | InGet \<Rightarrow>
          (case audio_queue s of
             [] \<Rightarrow> s\<lparr>pc := AtLoop\<rparr>
           | (samples, sample_rate) # rest \<Rightarrow>
               (case sd (device s) (samples, sample_rate) of
                  Returns \<Rightarrow>
                    s\<lparr>audio_queue := rest,
                      device := device s @ [Play (samples, sample_rate), Wait],
                      pc := AtLoop\<rparr>
                | PlayRaises \<Rightarrow>
                    s\<lparr>audio_queue := rest,
                      device := device s @ [Play (samples, sample_rate)],
                      pc := Finished\<rparr>
                | WaitRaises \<Rightarrow>
                    s\<lparr>audio_queue := rest,
                      device := device s @ [Play (samples, sample_rate), Wait],
                      pc := Finished\<rparr>))
      | Finished \<Rightarrow> s)"

definition add_to_queue :: "real list \<Rightarrow> int \<Rightarrow> audio_thread \<Rightarrow> audio_thread" where
  "add_to_queue samples sample_rate s =
     s\<lparr>audio_queue := audio_queue s @ [(samples, sample_rate)]\<rparr>"

text \<open>
  \<^verbatim>\<open>QThread.wait()\<close> blocks the caller until the worker has returned from \<^verbatim>\<open>run\<close>.
  The caller is the interaction thread, the only one that enqueues or stops, so the
  worker alone moves meanwhile. A wait that never ends is the value \<open>None\<close>.
\<close>

partial_function (option) wait :: "sounddevice \<Rightarrow> audio_thread \<Rightarrow> audio_thread option" where
  "wait sd s = (if pc s = Finished then Some s else wait sd (worker_step sd s))"

text \<open>
  \<^verbatim>\<open>stop\<close>. \<^verbatim>\<open>self.quit()\<close> asks the thread's event loop to exit; \<^verbatim>\<open>run\<close> is overridden
  and starts none, so it changes nothing.
\<close>

definition stop :: "sounddevice \<Rightarrow> audio_thread \<Rightarrow> audio_thread option" where
  "stop sd s = wait sd (s\<lparr>running := False\<rparr>)"

text \<open>
  An execution of the playback queue: the calls of the interaction thread interleaved
  with steps of the worker.
\<close>

datatype queue_event = Add buffer | Worker | Stop

fun queue_step :: "sounddevice \<Rightarrow> queue_event \<Rightarrow> audio_thread \<Rightarrow> audio_thread option" where
  "queue_step sd (Add (samples, sample_rate)) s = Some (add_to_queue samples sample_rate s)"
| "queue_step sd Worker s = Some (worker_step sd s)"
| "queue_step sd Stop s = stop sd s"

fun queue_exec :: "sounddevice \<Rightarrow> queue_event list \<Rightarrow> audio_thread \<Rightarrow> audio_thread option" where
  "queue_exec sd [] s = Some s"
| "queue_exec sd (e # es) s =
     (case queue_step sd e s of None \<Rightarrow> None | Some s' \<Rightarrow> queue_exec sd es s')"

text \<open>The buffers enqueued by an execution, and the buffers a device trace has played.\<close>

fun enqueued :: "queue_event list \<Rightarrow> buffer list" where
  "enqueued [] = []"
| "enqueued (Add b # es) = b # enqueued es"
| "enqueued (e # es) = enqueued es"

fun played :: "dev_call list \<Rightarrow> buffer list" where
  "played [] = []"
| "played (Play b # cs) = b # played cs"
| "played (Wait # cs) = played cs"

text \<open>A trace in which every \<^verbatim>\<open>play\<close> is followed by its \<^verbatim>\<open>wait\<close> before the next one.\<close>

fun one_at_a_time :: "dev_call list \<Rightarrow> bool" where
  "one_at_a_time [] = True"
| "one_at_a_time (Play b # Wait # cs) = one_at_a_time cs"
| "one_at_a_time cs = False"

text \<open>Two notions of the proofs: a worker that has not been stopped, and the steps it
  still needs to empty its queue.\<close>

definition alive :: "audio_thread \<Rightarrow> bool" where
  "alive s = (running s \<and> pc s \<noteq> Finished)"

definition steps_needed :: "audio_thread \<Rightarrow> nat" where
  "steps_needed s =
     (if pc s = InGet then 2 * length (audio_queue s) - 1 else 2 * length (audio_queue s))"

subsection \<open>Preferences at startup: \<^verbatim>\<open>load_config\<close> and \<^verbatim>\<open>init_ui\<close>\<close>

text \<open>
  A value of the configuration dictionary: a string, an integer, a boolean, null, or
  anything else JSON can hold (a number with a fraction, a list, an object). What
  \<^verbatim>\<open>json.load\<close> returns is a dictionary or some other value.
\<close>

datatype json = JStr pystr | JInt int | JBool bool | JNull | JOther

datatype config = Dict "pystr \<rightharpoonup> json" | NotDict

text \<open>
  The outcome of opening and parsing \<^verbatim>\<open>config.json\<close>: one of the two exceptions
  \<^verbatim>\<open>load_config\<close> catches, another exception (\<^verbatim>\<open>UnicodeDecodeError\<close> for a file that is
  not UTF-8, \<^verbatim>\<open>OSError\<close> for one that cannot be opened), or the parsed value.
\<close>

datatype config_read = FileNotFoundError | JSONDecodeError | Raises exn | Parsed config

fun load_config :: "config_read \<Rightarrow> exn + config" where
  "load_config (Parsed c) = Inr c"
| "load_config FileNotFoundError = Inr (Dict Map.empty)"
| "load_config JSONDecodeError = Inr (Dict Map.empty)"
| "load_config (Raises e) = Inl e"

text \<open>\<^verbatim>\<open>dict.get(key, default)\<close>.\<close>

definition dict_get :: "(pystr \<rightharpoonup> json) \<Rightarrow> pystr \<Rightarrow> json \<Rightarrow> json" where
  "dict_get d k dflt = (case d k of None \<Rightarrow> dflt | Some v \<Rightarrow> v)"

text \<open>
  A non-editable \<^verbatim>\<open>QComboBox\<close>: its items and the current index, \<open>None\<close> for Qt's -1.
  \<^verbatim>\<open>addItems\<close> on an empty box makes the first item current; \<^verbatim>\<open>setCurrentText\<close>
  selects the first item with that text and changes nothing when there is none.
\<close>

record combo =
  items :: "pystr list"
  current_index :: "nat option"

definition addItems :: "pystr list \<Rightarrow> combo" where
  "addItems texts = \<lparr>items = texts, current_index = (if texts = [] then None else Some 0)\<rparr>"

fun findText :: "pystr list \<Rightarrow> pystr \<Rightarrow> nat option" where
  "findText [] t = None"
| "findText (x # xs) t = (if x = t then Some 0 else map_option Suc (findText xs t))"

definition setCurrentText :: "pystr \<Rightarrow> combo \<Rightarrow> combo" where
  "setCurrentText t c =
     (case findText (items c) t of None \<Rightarrow> c | Some i \<Rightarrow> c\<lparr>current_index := Some i\<rparr>)"

definition currentText :: "combo \<Rightarrow> pystr" where
  "currentText c =
     (case current_index c of
        None \<Rightarrow> []
      | Some i \<Rightarrow> (if i < length (items c) then items c ! i else []))"

text \<open>
  \<^verbatim>\<open>QSlider.setValue\<close> on the range 0 to 100 set in \<^verbatim>\<open>init_ui\<close>. Its argument is a C
  \<^verbatim>\<open>int\<close>: PyQt refuses a Python integer outside 32 bits with \<^verbatim>\<open>OverflowError\<close>.
\<close>

definition setValue :: "int \<Rightarrow> exn + int" where
  "setValue v =
     (if - (2 ^ 31) \<le> v \<and> v < 2 ^ 31 then Inr (max 0 (min 100 v)) else Inl OverflowError)"

text \<open>
  How PyQt takes a configuration value as the argument of \<^verbatim>\<open>setCurrentText\<close>, a string
  (\<^verbatim>\<open>None\<close> passes as the empty string), and of \<^verbatim>\<open>setValue\<close>, an integer (a Python
  \<^verbatim>\<open>bool\<close> is one).
\<close>

fun as_text :: "json \<Rightarrow> exn + pystr" where
  "as_text (JStr t) = Inr t"
| "as_text JNull = Inr []"
| "as_text v = Inl TypeError"

fun as_int :: "json \<Rightarrow> exn + int" where
  "as_int (JInt i) = Inr i"
| "as_int (JBool b) = Inr (if b then 1 else 0)"
| "as_int v = Inl TypeError"

text \<open>
  The part of \<^verbatim>\<open>init_ui\<close> that sets the two voice boxes and the blend slider (lines 136
  to 146). A configuration that is no dictionary has no \<^verbatim>\<open>get\<close>.
\<close>

record prefs =
  voice1_combo :: combo
  voice2_combo :: combo
  blend_slider :: int

definition init_ui :: "pystr list \<Rightarrow> config \<Rightarrow> exn + prefs" where
  "init_ui voices config =
     (case config of
        NotDict \<Rightarrow> Inl AttributeError
      | Dict d \<Rightarrow>
          (case as_text (dict_get d (py ''voice1'')
                           (JStr (if voices \<noteq> [] then voices ! 0 else []))) of
             Inl e \<Rightarrow> Inl e
           | Inr v1 \<Rightarrow>
               (case as_text (dict_get d (py ''voice2'')
                                (JStr (if length voices > 1 then voices ! 1 else []))) of
                  Inl e \<Rightarrow> Inl e
                | Inr v2 \<Rightarrow>
                    (case as_int (dict_get d (py ''blend'') (JInt 50)) of
                       Inl e \<Rightarrow> Inl e
                     | Inr b \<Rightarrow>
                         (case setValue b of
                            Inl e \<Rightarrow> Inl e
                          | Inr v \<Rightarrow>
                              Inr \<lparr>voice1_combo = setCurrentText v1 (addItems voices),
                                   voice2_combo = setCurrentText v2 (addItems voices),
                                   blend_slider = v\<rparr>)))))"

text \<open>
  The start of \<^verbatim>\<open>TTSApp.__init__\<close>: \<^verbatim>\<open>load_config\<close>, then \<^verbatim>\<open>init_ui\<close>. An exception of
  either leaves the constructor, and the application does not start.
\<close>

definition startup :: "pystr list \<Rightarrow> config_read \<Rightarrow> exn + prefs" where
  "startup voices file =
     (case load_config file of
        Inl e \<Rightarrow> Inl e
      | Inr config \<Rightarrow> init_ui voices config)"

subsection \<open>\<^verbatim>\<open>TTSApp\<close>: submitting text\<close>

text \<open>
  The state of the application that \<^verbatim>\<open>handle_input\<close> and its callees read or write.
  \<open>tts_threads\<close> holds the synthesis threads started and not yet finished, oldest
  first: \<^verbatim>\<open>self.tts_thread\<close> names only the last one, the earlier ones keep running.
\<close>

record app =
  kokoro :: "kokoro option"
  ui :: prefs
  text_input :: pystr
  log_file :: "pystr list"
  log_display :: "pystr list"
  tts_threads :: "tts_thread list"
  audio_thread :: audio_thread
  stdout :: "out_line list"

text \<open>\<^verbatim>\<open>log_text\<close>; \<open>now\<close> is the formatted time stamp.\<close>

definition log_text :: "pystr \<Rightarrow> pystr \<Rightarrow> app \<Rightarrow> app" where
  "log_text now text a =
     (let log_entry = now @ py '' '' @ text
      in a\<lparr>log_file := log_file a @ [log_entry @ [10]],
           log_display := log_display a @ [log_entry]\<rparr>)"

text \<open>
  \<^verbatim>\<open>play_audio\<close>, with the exception it raises, if any. \<^verbatim>\<open>self.kokoro\<close> is \<^verbatim>\<open>None\<close>
  until \<^verbatim>\<open>load_kokoro\<close> has finished on its own thread, and \<^verbatim>\<open>None\<close> has no attribute
  \<^verbatim>\<open>get_voice_style\<close>.
\<close>

definition play_audio :: "ucd \<Rightarrow> pystr \<Rightarrow> app \<Rightarrow> app \<times> exn option" where
  "play_audio U text a =
     (let blend_value = blend_slider (ui a) in
      case kokoro a of
        None \<Rightarrow> (a, Some AttributeError)
      | Some k \<Rightarrow>
          (case get_voice_style k (strip U (currentText (voice1_combo (ui a)))) of
             Inl e \<Rightarrow> (a, Some e)
           | Inr voice1 \<Rightarrow>
               (case get_voice_style k (strip U (currentText (voice2_combo (ui a)))) of
                  Inl e \<Rightarrow> (a, Some e)
                | Inr voice2 \<Rightarrow>
                    (a\<lparr>tts_threads := tts_threads a @
                         [\<lparr>tts_kokoro = k, tts_text = text, tts_voice1 = voice1,
                           tts_voice2 = voice2, tts_blend_value = blend_value\<rparr>]\<rparr>,
                     None))))"

text \<open>\<^verbatim>\<open>handle_input\<close>, the slot of the input field.\<close>

definition handle_input :: "ucd \<Rightarrow> pystr \<Rightarrow> app \<Rightarrow> app \<times> exn option" where
  "handle_input U now a =
     (let text = sanitize U (text_input a) in
      if text \<noteq> [] then play_audio U text (log_text now text (a\<lparr>text_input := []\<rparr>))
      else (a, None))"

definition play_audio_output :: "real list \<Rightarrow> int \<Rightarrow> app \<Rightarrow> app" where
  "play_audio_output samples sample_rate a =
     a\<lparr>audio_thread := add_to_queue samples sample_rate (audio_thread a)\<rparr>"

text \<open>
  What can happen while the window is open: the user submits a line (with the time of
  the submission), the model finishes loading, the synthesis thread at a position of
  \<open>tts_threads\<close> finishes, the playback worker takes a step. An exception raised in a
  slot ends the execution, with the state it left behind.
\<close>

datatype event = Submit pystr pystr | ModelLoaded kokoro | Complete nat | Playback

fun step :: "ucd \<Rightarrow> sounddevice \<Rightarrow> event \<Rightarrow> app \<Rightarrow> app \<times> exn option" where
  "step U sd (Submit typed now) a = handle_input U now (a\<lparr>text_input := typed\<rparr>)"
| "step U sd (ModelLoaded k) a = (a\<lparr>kokoro := Some k\<rparr>, None)"
| "step U sd (Complete i) a =
     (if i < length (tts_threads a) then
        (case TTSThread_run (tts_threads a ! i) of
           (signal, printed) \<Rightarrow>
             (let a' = a\<lparr>tts_threads := take i (tts_threads a) @ drop (Suc i) (tts_threads a),
                         stdout := stdout a @ printed\<rparr>
              in case signal of
                   None \<Rightarrow> (a', None)
                 | Some (samples, sample_rate) \<Rightarrow>
                     (play_audio_output samples sample_rate a', None)))
      else (a, None))"
| "step U sd Playback a = (a\<lparr>audio_thread := worker_step sd (audio_thread a)\<rparr>, None)"

fun exec :: "ucd \<Rightarrow> sounddevice \<Rightarrow> event list \<Rightarrow> app \<Rightarrow> app \<times> exn option" where
  "exec U sd [] a = (a, None)"
| "exec U sd (e # es) a =
     (case step U sd e a of
        (a', None) \<Rightarrow> exec U sd es a'
      | (a', Some x) \<Rightarrow> (a', Some x))"

text \<open>
  The buffers of an execution in the order their synthesis completed, and in the order
  their requests were submitted.
\<close>

fun completes :: "event \<Rightarrow> app \<Rightarrow> buffer list" where
  "completes (Complete i) a =
     (if i < length (tts_threads a) then
        (case fst (TTSThread_run (tts_threads a ! i)) of None \<Rightarrow> [] | Some b \<Rightarrow> [b])
      else [])"
| "completes e a = []"

fun completion_order :: "ucd \<Rightarrow> sounddevice \<Rightarrow> event list \<Rightarrow> app \<Rightarrow> buffer list" where
  "completion_order U sd [] a = []"
| "completion_order U sd (e # es) a =
     completes e a @
     (case step U sd e a of
        (a', None) \<Rightarrow> completion_order U sd es a'
      | (a', Some x) \<Rightarrow> [])"

definition dispatches :: "ucd \<Rightarrow> sounddevice \<Rightarrow> event \<Rightarrow> app \<Rightarrow> tts_thread list" where
  "dispatches U sd e a =
     (case e of
        Submit typed now \<Rightarrow> drop (length (tts_threads a)) (tts_threads (fst (step U sd e a)))
      | _ \<Rightarrow> [])"

fun submission_order :: "ucd \<Rightarrow> sounddevice \<Rightarrow> event list \<Rightarrow> app \<Rightarrow> buffer list" where
  "submission_order U sd [] a = []"
| "submission_order U sd (e # es) a =
     List.map_filter (\<lambda>t. fst (TTSThread_run t)) (dispatches U sd e a) @
     (case step U sd e a of
        (a', None) \<Rightarrow> submission_order U sd es a'
      | (a', Some x) \<Rightarrow> [])"

text \<open>
  \<^verbatim>\<open>load_log\<close>: the display shows the last 50 lines of the log file, or a notice when
  there is no file (\<open>None\<close>).
\<close>

definition load_log :: "pystr list option \<Rightarrow> pystr list" where
  "load_log file =
     (case file of
        None \<Rightarrow> [py ''No previous logs found.'']
      | Some lines \<Rightarrow> [concat (drop (length lines - 50) lines)])"

text \<open>
  \<^verbatim>\<open>TTSApp.__init__\<close>, from the preferences \<^verbatim>\<open>init_ui\<close> has set and the log file as
  it was found. The model is not loaded yet: \<^verbatim>\<open>init_kokoro\<close> only starts the thread
  that will load it.
\<close>

definition TTSApp_init :: "prefs \<Rightarrow> pystr list option \<Rightarrow> app" where
  "TTSApp_init p file =
     \<lparr>kokoro = None, ui = p, text_input = [],
      log_file = (case file of None \<Rightarrow> [] | Some lines \<Rightarrow> lines),
      log_display = load_log file,
      tts_threads = [], audio_thread = AudioThread_start, stdout = []\<rparr>"

subsection \<open>A concrete installation, for evaluating executions\<close>

text \<open>
  A model that knows every voice name and synthesizes, for a text, one sample per
  character at 24000 Hz; and one whose synthesis always fails.
\<close>

definition demo_kokoro :: kokoro where
  "demo_kokoro =
     \<lparr>get_voice_style = (\<lambda>name. Inr [Num 1, Num 2]),
      create = (\<lambda>text v speed lang. Inr (map real text, 24000))\<rparr>"

definition failing_kokoro :: kokoro where
  "failing_kokoro =
     \<lparr>get_voice_style = (\<lambda>name. Inr [Num 1, Num 2]),
      create = (\<lambda>text v speed lang. Inl (External (py ''inference failed'')))\<rparr>"

text \<open>A sound device on which every call returns.\<close>

definition working_device :: sounddevice where
  "working_device = (\<lambda>calls b. Returns)"

text \<open>A sound device that refuses a sample rate that is not positive.\<close>

definition strict_device :: sounddevice where
  "strict_device = (\<lambda>calls b. if 0 < snd b then Returns else PlayRaises)"

text \<open>
  A synthesis request at a blend of 50 whose two voices have one component each,
  \<open>1\<close> and \<open>2 ^ - 30\<close>.
\<close>

definition uneven_request :: tts_thread where
  "uneven_request =
     \<lparr>tts_kokoro = demo_kokoro, tts_text = py ''hi'', tts_voice1 = [Num 1],
      tts_voice2 = [Num (1 / 2 ^ 30)], tts_blend_value = 50\<rparr>"

definition demo_prefs :: prefs where
  "demo_prefs =
     \<lparr>voice1_combo = addItems [py ''Alice'', py ''Bob''],
      voice2_combo = setCurrentText (py ''Bob'') (addItems [py ''Alice'', py ''Bob'']),
      blend_slider = 50\<rparr>"

text \<open>An execution in which the second request finishes synthesis before the first.\<close>

definition overlap :: "event list" where
  "overlap =
     [ModelLoaded demo_kokoro,
      Submit (py ''a'') (py ''[t1]''), Submit (py ''b'') (py ''[t2]''),
      Complete 1, Complete 0,
      Playback, Playback, Playback, Playback]"

text \<open>A request whose synthesis fails, in flight.\<close>

definition failing_request :: app where
  "failing_request =
     (TTSApp_init demo_prefs None)
       \<lparr>tts_threads :=
          [\<lparr>tts_kokoro = failing_kokoro, tts_text = py ''hi'', tts_voice1 = [Num 1, Num 2],
            tts_voice2 = [Num 1, Num 2], tts_blend_value = 50\<rparr>]\<rparr>"

text \<open>Two buffers are enqueued and the queue is stopped before the worker has moved.\<close>

definition stopped_early :: "queue_event list" where
  "stopped_early = [Add ([1], 8), Add ([2], 8), Stop, Worker, Worker]"

text \<open>The device returns on every buffer of a set, whatever it has been sent before.\<close>

abbreviation returns_on :: "sounddevice \<Rightarrow> buffer set \<Rightarrow> bool" where
  "returns_on sd B \<equiv> (\<forall>calls. \<forall>b\<in>B. sd calls b = Returns)"

text \<open>Everything handed to the playback queue so far: played, or still waiting.\<close>

definition handed_over :: "app \<Rightarrow> buffer list" where
  "handed_over a = played (device (audio_thread a)) @ audio_queue (audio_thread a)"

section \<open>Sanitisation\<close>

lemma set_strip: "set (strip U s) \<subseteq> set s"
proof -
  have "set (strip U s) \<subseteq> set (dropWhile (isspace U) s)"
    unfolding strip_def by (metis set_dropWhileD set_rev subsetI)
  also have "\<dots> \<subseteq> set s" by (meson set_dropWhileD subsetI)
  finally show ?thesis .
qed

lemma re_sub_fixed: "\<forall>c\<in>set s. kept U c \<Longrightarrow> re_sub U s = s"
  by (simp add: re_sub_def)

lemma kept_sanitize: "c \<in> set (sanitize U s) \<Longrightarrow> kept U c"
  by (simp add: sanitize_def re_sub_def)

lemma re_sub_sanitize: "re_sub U (sanitize U s) = sanitize U s"
  by (simp add: sanitize_def re_sub_def)

lemma sanitize_sanitize: "sanitize U (sanitize U s) = strip U (sanitize U s)"
proof -
  define y where "y = sanitize U s"
  have "\<forall>c\<in>set (strip U y). kept U c"
    using set_strip[of U y] kept_sanitize[of _ U s] by (auto simp: y_def)
  then have b: "re_sub U (strip U y) = strip U y" by (rule re_sub_fixed)
  have a: "sanitize U y = re_sub U (strip U y)" by (fact sanitize_def)
  from a b show ?thesis unfolding y_def by (rule trans)
qed

lemmas classes = sanitize_def re_sub_def strip_def kept_def word_char_def isalnum_def isspace_def

lemma sanitize_hi: "sanitize U [104, 105] = [104, 105]"
  by (simp add: classes)

lemma sanitize_a_b: "sanitize U [97] = [97]" "sanitize U [98] = [98]"
  by (simp_all add: classes)

lemma play_audio_log: "log_file (fst (play_audio U text a)) = log_file a"
  by (simp add: play_audio_def split: option.split sum.split)

lemma play_audio_threads:
  "tts_threads (fst (play_audio U text a)) = tts_threads a
   \<or> (\<exists>t. tts_threads (fst (play_audio U text a)) = tts_threads a @ [t] \<and> tts_text t = text)"
  by (simp add: play_audio_def split: option.split sum.split)

text \<open>
  C6. Whatever the input, its sanitized form holds only characters of the class
  \<^verbatim>\<open>[\w\s.,!?"']\<close>, and \<^verbatim>\<open>Hello <world>! 100%\<close> becomes \<^verbatim>\<open>Hello world! 100\<close>. The
  sanitized form is the text \<^verbatim>\<open>handle_input\<close> writes to the log, if it writes, and the
  text of the synthesis request it starts, if it starts one.
\<close>

theorem sanitized_characters:
  "(\<forall>c\<in>set (sanitize U s). kept U c)
   \<and> sanitize U (py ''Hello <world>! 100%'') = py ''Hello world! 100''
   \<and> (log_file (fst (handle_input U now a)) = log_file a
       \<or> log_file (fst (handle_input U now a))
            = log_file a @ [now @ py '' '' @ sanitize U (text_input a) @ [10]])
   \<and> (tts_threads (fst (handle_input U now a)) = tts_threads a
       \<or> (\<exists>t. tts_threads (fst (handle_input U now a)) = tts_threads a @ [t]
                \<and> tts_text t = sanitize U (text_input a)))"
proof -
  let ?text = "sanitize U (text_input a)"
  let ?a1 = "log_text now ?text (a\<lparr>text_input := []\<rparr>)"
  have a: "\<forall>c\<in>set (sanitize U s). kept U c" by (simp add: kept_sanitize)
  have b: "sanitize U (py ''Hello <world>! 100%'') = py ''Hello world! 100''"
    by (simp add: classes)
  have c: "log_file (fst (handle_input U now a)) = log_file a
       \<or> log_file (fst (handle_input U now a)) = log_file a @ [now @ py '' '' @ ?text @ [10]]"
    by (simp add: handle_input_def Let_def play_audio_log log_text_def)
  have d: "tts_threads (fst (handle_input U now a)) = tts_threads a
       \<or> (\<exists>t. tts_threads (fst (handle_input U now a)) = tts_threads a @ [t]
                \<and> tts_text t = ?text)"
  proof (cases "?text = []")
    case True
    then show ?thesis by (simp add: handle_input_def)
  next
    case False
    have "tts_threads ?a1 = tts_threads a" by (simp add: log_text_def Let_def)
    then show ?thesis
      using False play_audio_threads[of U ?text ?a1] by (simp add: handle_input_def Let_def)
  qed
  from a b c d show ?thesis by blast
qed

theorem sanitized_characters_witness:
  "72 \<in> set (sanitize ascii_ucd (py ''<Hi>'')) \<and> kept ascii_ucd 72"
  using sanitized_characters[of ascii_ucd "py ''<Hi>''"]
  by (simp add: classes)

text \<open>
  The text \<^verbatim>\<open>< a\<close> has no whitespace at its ends, so \<^verbatim>\<open>strip\<close> leaves it alone; deleting
  \<^verbatim>\<open><\<close> then uncovers a leading space, which a second pass strips.
\<close>

theorem sanitize_not_idempotent:
  "sanitize ascii_ucd (py ''< a'') = py '' a''
   \<and> sanitize ascii_ucd (sanitize ascii_ucd (py ''< a'')) = py ''a''
   \<and> sanitize ascii_ucd (sanitize ascii_ucd (py ''< a'')) \<noteq> sanitize ascii_ucd (py ''< a'')"
  by (simp add: classes)

text \<open>
  C10, amended. Sanitizing a second time only strips the whitespace the first pass left
  at the two ends: applying the transform twice gives the stripped form of applying it
  once. The deletion of characters alone leaves a sanitized text as it is.
\<close>

theorem sanitize_twice:
  "sanitize U (sanitize U s) = strip U (sanitize U s)
   \<and> re_sub U (sanitize U s) = sanitize U s"
  using sanitize_sanitize re_sub_sanitize by blast

section \<open>The playback queue\<close>

lemma played_append: "played (cs @ ds) = played cs @ played ds"
  by (induction cs rule: played.induct) simp_all

lemma one_at_a_time_snoc: "one_at_a_time (cs @ [Play b, Wait]) = one_at_a_time cs"
  by (induction cs rule: one_at_a_time.induct) simp_all

subsection \<open>One step of the worker\<close>

lemma worker_step_conserves:
  "played (device (worker_step sd s)) @ audio_queue (worker_step sd s)
     = played (device s) @ audio_queue s"
  by (simp add: worker_step_def played_append split: pc.split list.split sd_outcome.split)

lemma worker_step_Finished: "pc s = Finished \<Longrightarrow> worker_step sd s = s"
  by (simp add: worker_step_def)

lemma worker_step_queue: "set (audio_queue (worker_step sd s)) \<subseteq> set (audio_queue s)"
  by (auto simp: worker_step_def split: pc.split list.split sd_outcome.split)

lemma worker_step_one_at_a_time:
  assumes "returns_on sd (set (audio_queue s))"
  shows "one_at_a_time (device (worker_step sd s)) = one_at_a_time (device s)"
proof (cases "audio_queue s")
  case Nil
  then show ?thesis by (simp add: worker_step_def split: pc.split)
next
  case (Cons b rest)
  then have "sd (device s) b = Returns" using assms by simp
  then show ?thesis
    using Cons by (cases b) (simp add: worker_step_def one_at_a_time_snoc split: pc.split)
qed

lemma worker_step_alive:
  assumes "returns_on sd (set (audio_queue s))" and "alive s"
  shows "alive (worker_step sd s)"
proof (cases "audio_queue s")
  case Nil
  then show ?thesis using assms(2) by (auto simp: alive_def worker_step_def split: pc.split)
next
  case (Cons b rest)
  then have "sd (device s) b = Returns" using assms(1) by simp
  then show ?thesis
    using Cons assms(2) by (cases b) (auto simp: alive_def worker_step_def split: pc.split)
qed

lemma steps_needed_step:
  assumes "returns_on sd (set (audio_queue s))" and "alive s"
  shows "steps_needed (worker_step sd s) \<le> steps_needed s - 1"
proof (cases "pc s")
  case AtLoop
  then show ?thesis using assms(2) by (simp add: steps_needed_def alive_def worker_step_def)
next
  case InGet
  show ?thesis
  proof (cases "audio_queue s")
    case Nil
    then show ?thesis using InGet by (simp add: steps_needed_def worker_step_def)
  next
    case (Cons b rest)
    then have "sd (device s) b = Returns" using assms(1) by simp
    then show ?thesis
      using Cons InGet by (cases b) (simp add: steps_needed_def worker_step_def)
  qed
next
  case Finished
  then show ?thesis using assms(2) by (simp add: alive_def)
qed

subsection \<open>\<^verbatim>\<open>stop\<close> returns\<close>

lemma wait_Finished: "pc s = Finished \<Longrightarrow> wait sd s = Some s"
  by (subst wait.simps) simp

lemma wait_worker_step: "wait sd (worker_step sd s) = wait sd s"
proof (cases "pc s = Finished")
  case True
  then show ?thesis by (simp add: worker_step_Finished)
next
  case False
  then show ?thesis by (subst (2) wait.simps) simp
qed

lemma two_steps_finish: "\<not> running s \<Longrightarrow> pc (worker_step sd (worker_step sd s)) = Finished"
  by (simp add: worker_step_def split: pc.split list.split sd_outcome.split)

text \<open>
  Once \<open>running\<close> is false the worker is out of \<^verbatim>\<open>run\<close> within two steps: the pending
  \<^verbatim>\<open>get\<close> ends, by an entry or by the timeout, and the loop test fails.
\<close>

lemma stop_eq: "stop sd s = Some (worker_step sd (worker_step sd (s\<lparr>running := False\<rparr>)))"
proof -
  let ?s0 = "s\<lparr>running := False\<rparr>"
  have "wait sd ?s0 = wait sd (worker_step sd (worker_step sd ?s0))"
    by (simp only: wait_worker_step)
  also have "\<dots> = Some (worker_step sd (worker_step sd ?s0))"
    by (rule wait_Finished, rule two_steps_finish) simp
  finally show ?thesis by (simp only: stop_def)
qed

lemma stop_Finished: "stop sd s = Some s' \<Longrightarrow> pc s' = Finished"
  using two_steps_finish[of "s\<lparr>running := False\<rparr>" sd] by (auto simp add: stop_eq)

lemma stop_conserves:
  "stop sd s = Some s' \<Longrightarrow>
     played (device s') @ audio_queue s' = played (device s) @ audio_queue s"
  by (auto simp add: stop_eq worker_step_conserves)

lemma stop_queue: "stop sd s = Some s' \<Longrightarrow> set (audio_queue s') \<subseteq> set (audio_queue s)"
proof -
  assume "stop sd s = Some s'"
  then have s': "s' = worker_step sd (worker_step sd (s\<lparr>running := False\<rparr>))"
    by (simp add: stop_eq)
  have "set (audio_queue s') \<subseteq> set (audio_queue (worker_step sd (s\<lparr>running := False\<rparr>)))"
    unfolding s' by (rule worker_step_queue)
  also have "\<dots> \<subseteq> set (audio_queue (s\<lparr>running := False\<rparr>))"
    by (rule worker_step_queue)
  finally show ?thesis by simp
qed

lemma stop_one_at_a_time:
  assumes "returns_on sd (set (audio_queue s))" and "stop sd s = Some s'"
  shows "one_at_a_time (device s') = one_at_a_time (device s)"
proof -
  let ?s0 = "s\<lparr>running := False\<rparr>"
  have s': "s' = worker_step sd (worker_step sd ?s0)"
    using assms(2) by (simp add: stop_eq)
  have r0: "returns_on sd (set (audio_queue ?s0))" using assms(1) by simp
  then have r1: "returns_on sd (set (audio_queue (worker_step sd ?s0)))"
    using worker_step_queue[of sd ?s0] by blast
  show ?thesis
    unfolding s'
    using worker_step_one_at_a_time[OF r1] worker_step_one_at_a_time[OF r0] by simp
qed

subsection \<open>Executions\<close>

lemma queue_step_total: "\<exists>s'. queue_step sd e s = Some s'"
  by (cases e) (auto simp: stop_eq)

lemma queue_step_conserves:
  "queue_step sd e s = Some s' \<Longrightarrow>
     played (device s') @ audio_queue s' = played (device s) @ audio_queue s @ enqueued [e]"
  by (cases e) (auto simp: add_to_queue_def worker_step_conserves stop_conserves)

lemma enqueued_Cons: "enqueued (e # es) = enqueued [e] @ enqueued es"
  by (cases e) simp_all

lemma enqueued_append: "enqueued (es @ fs) = enqueued es @ enqueued fs"
  by (induction es rule: enqueued.induct) simp_all

lemma enqueued_Worker: "enqueued (replicate k Worker) = []"
  by (induction k) simp_all

lemma queue_exec_total: "\<exists>s'. queue_exec sd es s = Some s'"
proof (induction es arbitrary: s)
  case Nil
  show ?case by simp
next
  case (Cons e es)
  obtain s1 where "queue_step sd e s = Some s1" using queue_step_total by blast
  with Cons show ?case by simp
qed

lemma queue_exec_conserves:
  "queue_exec sd es s = Some s' \<Longrightarrow>
     played (device s') @ audio_queue s' = played (device s) @ audio_queue s @ enqueued es"
proof (induction es arbitrary: s)
  case Nil
  then show ?case by simp
next
  case (Cons e es)
  then obtain s1 where s1: "queue_step sd e s = Some s1" and rest: "queue_exec sd es s1 = Some s'"
    by (auto split: option.splits)
  have "played (device s') @ audio_queue s' = played (device s1) @ audio_queue s1 @ enqueued es"
    using Cons.IH rest by blast
  also have "\<dots> = (played (device s) @ audio_queue s @ enqueued [e]) @ enqueued es"
    using queue_step_conserves[OF s1] by simp
  finally show ?case by (simp add: enqueued_Cons[of e es])
qed

lemma queue_exec_append:
  "queue_exec sd (es @ fs) s
     = (case queue_exec sd es s of None \<Rightarrow> None | Some s' \<Rightarrow> queue_exec sd fs s')"
  by (induction es arbitrary: s) (auto split: option.splits)

text \<open>
  On a device that returns on every buffer in play, a step keeps the buffers of the
  queue among them, keeps the alternation of \<^verbatim>\<open>play\<close> and \<^verbatim>\<open>wait\<close>, and, when it is no
  stop, leaves the worker alive.
\<close>

lemma queue_step_returns:
  assumes "returns_on sd B" and "set (audio_queue s) \<subseteq> B" and "set (enqueued [e]) \<subseteq> B"
    and "queue_step sd e s = Some s'"
  shows "set (audio_queue s') \<subseteq> B"
    and "one_at_a_time (device s') = one_at_a_time (device s)"
    and "e \<noteq> Stop \<Longrightarrow> alive s \<Longrightarrow> alive s'"
proof -
  have r: "returns_on sd (set (audio_queue s))" using assms(1,2) by blast
  show "set (audio_queue s') \<subseteq> B"
  proof (cases e)
    case (Add b)
    then show ?thesis using assms(2,3,4) by (cases b) (auto simp: add_to_queue_def)
  next
    case Worker
    then show ?thesis using assms(2,4) worker_step_queue[of sd s] by auto
  next
    case Stop
    then show ?thesis using assms(2,4) stop_queue[of sd s s'] by auto
  qed
  show "one_at_a_time (device s') = one_at_a_time (device s)"
  proof (cases e)
    case (Add b)
    then show ?thesis using assms(4) by (cases b) (auto simp: add_to_queue_def)
  next
    case Worker
    then show ?thesis using assms(4) worker_step_one_at_a_time[OF r] by auto
  next
    case Stop
    then show ?thesis using assms(4) stop_one_at_a_time[OF r] by auto
  qed
  show "alive s'" if "e \<noteq> Stop" and "alive s"
  proof (cases e)
    case (Add b)
    then show ?thesis using assms(4) that(2) by (cases b) (auto simp: add_to_queue_def alive_def)
  next
    case Worker
    then show ?thesis using assms(4) worker_step_alive[OF r that(2)] by auto
  next
    case Stop
    then show ?thesis using that(1) by simp
  qed
qed

lemma queue_exec_returns:
  assumes "returns_on sd B"
  shows "set (audio_queue s) \<subseteq> B \<Longrightarrow> set (enqueued es) \<subseteq> B \<Longrightarrow>
         queue_exec sd es s = Some s' \<Longrightarrow>
           set (audio_queue s') \<subseteq> B
           \<and> one_at_a_time (device s') = one_at_a_time (device s)
           \<and> (Stop \<notin> set es \<and> alive s \<longrightarrow> alive s')"
proof (induction es arbitrary: s)
  case Nil
  then show ?case by simp
next
  case (Cons e es)
  from Cons.prems(3) obtain s1 where
    s1: "queue_step sd e s = Some s1" and rest: "queue_exec sd es s1 = Some s'"
    by (auto split: option.splits)
  have e: "set (enqueued [e]) \<subseteq> B" and es: "set (enqueued es) \<subseteq> B"
    using Cons.prems(2) enqueued_Cons[of e es] by auto
  note st = queue_step_returns[OF assms Cons.prems(1) e s1]
  note ih = Cons.IH[OF st(1) es rest]
  show ?case using ih st(2) st(3) by auto
qed

text \<open>A worker that is not stopped empties its queue in the steps counted above.\<close>

lemma drain:
  "returns_on sd (set (audio_queue s)) \<Longrightarrow> alive s \<Longrightarrow> steps_needed s \<le> n \<Longrightarrow>
     \<exists>s'. queue_exec sd (replicate n Worker) s = Some s' \<and> audio_queue s' = []"
proof (induction n arbitrary: s)
  case 0
  then have "2 * length (audio_queue s) \<le> 1"
    by (simp add: steps_needed_def split: if_splits)
  then have "length (audio_queue s) = 0" by linarith
  then show ?case by simp
next
  case (Suc n)
  have r: "returns_on sd (set (audio_queue (worker_step sd s)))"
    using Suc.prems(1) worker_step_queue[of sd s] by blast
  have a: "alive (worker_step sd s)"
    using Suc.prems(1,2) by (rule worker_step_alive)
  have "steps_needed (worker_step sd s) \<le> n"
    using steps_needed_step[OF Suc.prems(1,2)] Suc.prems(3) by linarith
  from Suc.IH[OF r a this] show ?case by simp
qed

lemma after_Finished:
  "pc s = Finished \<Longrightarrow> queue_exec sd es s = Some s' \<Longrightarrow>
     device s' = device s \<and> pc s' = Finished"
proof (induction es arbitrary: s)
  case Nil
  then show ?case by simp
next
  case (Cons e es)
  then obtain s1 where s1: "queue_step sd e s = Some s1" and rest: "queue_exec sd es s1 = Some s'"
    by (auto split: option.splits)
  have "device s1 = device s \<and> pc s1 = Finished"
    using s1 Cons.prems(1)
    by (cases e) (auto simp: add_to_queue_def worker_step_Finished stop_eq)
  then show ?case using Cons.IH[OF _ rest] by simp
qed

text \<open>
  Two buffers are enqueued, then the queue is stopped: the worker leaves \<^verbatim>\<open>run\<close> at its
  next loop test, both buffers stay in the queue, and the device receives no call.
\<close>

theorem queued_before_stop_dropped:
  "queue_exec working_device stopped_early AudioThread_start
     = Some \<lparr>audio_queue = [([1], 8), ([2], 8)], running = False, pc = Finished, device = []\<rparr>
   \<and> enqueued stopped_early = [([1], 8), ([2], 8)]"
  by (simp add: stopped_early_def stop_eq AudioThread_start_def worker_step_def add_to_queue_def)

text \<open>
  A device error ends the worker: the buffer with the refused rate is taken from the
  queue, the call on the device raises, and the buffer behind it is never played.
\<close>

lemma device_error_ends_run:
  "queue_exec strict_device [Add ([1], 0), Add ([2], 8), Worker, Worker, Worker, Worker]
     AudioThread_start
   = Some \<lparr>audio_queue = [([2], 8)], running = True, pc = Finished,
           device = [Play ([1], 0)]\<rparr>"
  by (simp add: strict_device_def AudioThread_start_def worker_step_def add_to_queue_def)

text \<open>
  C1, amended. In every execution of a freshly started playback queue, whatever the
  interleaving of enqueues, worker steps and stops, the buffers sent to the device so far
  are a prefix of the buffers enqueued. When the device returns on the enqueued buffers,
  every \<^verbatim>\<open>play\<close> is followed by its \<^verbatim>\<open>wait\<close> before the next \<^verbatim>\<open>play\<close>; and when,
  moreover, the queue is not stopped, two worker steps for each enqueued buffer suffice
  to have exactly the enqueued buffers played, in the order of enqueuing.
\<close>

theorem playback_fifo_unless_stopped:
  "\<exists>s. queue_exec sd evs AudioThread_start = Some s
      \<and> prefix (played (device s)) (enqueued evs)
      \<and> (returns_on sd (set (enqueued evs)) \<longrightarrow>
           one_at_a_time (device s)
           \<and> (Stop \<notin> set evs \<longrightarrow>
                (\<exists>s'. queue_exec sd (evs @ replicate (2 * length (enqueued evs)) Worker)
                         AudioThread_start = Some s'
                   \<and> played (device s') = enqueued evs
                   \<and> one_at_a_time (device s'))))"
proof -
  let ?n = "2 * length (enqueued evs)"
  let ?B = "set (enqueued evs)"
  obtain s where s: "queue_exec sd evs AudioThread_start = Some s"
    using queue_exec_total by blast
  have cons: "played (device s) @ audio_queue s = enqueued evs"
    using queue_exec_conserves[OF s] by (simp add: AudioThread_start_def)
  have pre: "prefix (played (device s)) (enqueued evs)"
    using cons by (metis prefixI)
  have "one_at_a_time (device s)
        \<and> (Stop \<notin> set evs \<longrightarrow>
             (\<exists>s'. queue_exec sd (evs @ replicate ?n Worker) AudioThread_start = Some s'
                \<and> played (device s') = enqueued evs \<and> one_at_a_time (device s')))"
    if r: "returns_on sd ?B"
  proof -
    have start: "set (audio_queue AudioThread_start) \<subseteq> ?B"
      by (simp add: AudioThread_start_def)
    note inv = queue_exec_returns[OF r start subset_refl s]
    have seq: "one_at_a_time (device s)"
      using inv by (simp add: AudioThread_start_def)
    have "\<exists>s'. queue_exec sd (evs @ replicate ?n Worker) AudioThread_start = Some s'
              \<and> played (device s') = enqueued evs \<and> one_at_a_time (device s')"
      if ns: "Stop \<notin> set evs"
    proof -
      have al: "alive s"
        using inv ns by (simp add: alive_def AudioThread_start_def)
      have rq: "returns_on sd (set (audio_queue s))" using inv r by blast
      have "length (audio_queue s) \<le> length (enqueued evs)"
        using cons by (metis length_append le_add2)
      then have "steps_needed s \<le> ?n" by (auto simp: steps_needed_def)
      from drain[OF rq al this] obtain s' where
        s': "queue_exec sd (replicate ?n Worker) s = Some s'" and emp: "audio_queue s' = []"
        by blast
      have full: "queue_exec sd (evs @ replicate ?n Worker) AudioThread_start = Some s'"
        using s s' by (simp add: queue_exec_append)
      have "played (device s') @ audio_queue s' = enqueued (evs @ replicate ?n Worker)"
        using queue_exec_conserves[OF full] by (simp add: AudioThread_start_def)
      then have "played (device s') = enqueued evs"
        using emp by (simp add: enqueued_append enqueued_Worker)
      moreover have "one_at_a_time (device s')"
        using queue_exec_returns[OF rq subset_refl _ s'] seq by (simp add: enqueued_Worker)
      ultimately show ?thesis using full by blast
    qed
    with seq show ?thesis by blast
  qed
  with s pre show ?thesis by blast
qed

theorem playback_fifo_unless_stopped_witness:
  "Stop \<notin> set [Add ([1], 8), Worker, Add ([2], 8)]
   \<and> queue_exec working_device ([Add ([1], 8), Worker, Add ([2], 8)] @ replicate 4 Worker)
        AudioThread_start
       = Some \<lparr>audio_queue = [], running = True, pc = InGet,
               device = [Play ([1], 8), Wait, Play ([2], 8), Wait]\<rparr>
   \<and> played [Play ([1], 8), Wait, Play ([2], 8), Wait]
       = enqueued [Add ([1], 8), Worker, Add ([2], 8)]"
  using playback_fifo_unless_stopped[of working_device "[Add ([1], 8), Worker, Add ([2], 8)]"]
  by (simp add: working_device_def AudioThread_start_def worker_step_def add_to_queue_def
        numeral_eq_Suc)

text \<open>
  C8. \<^verbatim>\<open>stop\<close> on an idle playback queue returns: the join ends after at most two steps
  of the worker, whose pending \<^verbatim>\<open>get\<close> times out, and the worker has then left \<^verbatim>\<open>run\<close> by
  itself. The stop makes no call on the device, and nothing that happens to the instance
  afterwards does, enqueuing included.
\<close>

theorem stop_when_idle:
  assumes "audio_queue s = []"
  shows "\<exists>s'. stop sd s = Some s'
           \<and> s' = worker_step sd (worker_step sd (s\<lparr>running := False\<rparr>))
           \<and> pc s' = Finished
           \<and> device s' = device s
           \<and> (\<exists>s''. queue_exec sd es s' = Some s'' \<and> device s'' = device s')"
proof -
  let ?s' = "worker_step sd (worker_step sd (s\<lparr>running := False\<rparr>))"
  have st: "stop sd s = Some ?s'" by (rule stop_eq)
  have fin: "pc ?s' = Finished" using st by (rule stop_Finished)
  have dev: "device ?s' = device s"
    using assms by (simp add: worker_step_def split: pc.split)
  obtain s'' where ex: "queue_exec sd es ?s' = Some s''" using queue_exec_total by blast
  have "device s'' = device ?s'" using after_Finished[OF fin ex] by simp
  with st fin dev ex show ?thesis by blast
qed

theorem stop_when_idle_witness:
  "audio_queue (AudioThread_start\<lparr>pc := InGet\<rparr>) = []
   \<and> stop working_device (AudioThread_start\<lparr>pc := InGet\<rparr>)
       = Some \<lparr>audio_queue = [], running = False, pc = Finished, device = []\<rparr>
   \<and> queue_exec working_device [Add ([1], 8), Worker, Worker]
        \<lparr>audio_queue = [], running = False, pc = Finished, device = []\<rparr>
       = Some \<lparr>audio_queue = [([1], 8)], running = False, pc = Finished, device = []\<rparr>"
  using stop_when_idle[of "AudioThread_start\<lparr>pc := InGet\<rparr>" working_device
          "[Add ([1], 8), Worker, Worker]"]
  by (simp add: AudioThread_start_def worker_step_def add_to_queue_def)

section \<open>The synthesis thread\<close>

subsection \<open>Numbers that are rounded to themselves\<close>

lemma round32_half: "round_to binary32 (1 / 2) = Num (1 / 2)" by code_simp
lemma round32_one: "round_to binary32 1 = Num 1" by code_simp
lemma round64_half: "round_to binary64 (1 / 2) = Num (1 / 2)" by code_simp
lemma round64_one: "round_to binary64 1 = Num 1" by code_simp
lemma round32_three: "round_to binary32 3 = Num 3" by code_simp
lemma round_zero: "round_to F 0 = Num 0" by (simp add: round_to_def)

lemma blend_constants:
  "int_truediv 0 100 = Inr (Num 0)"
  "int_truediv 50 100 = Inr (Num (1 / 2))"
  "int_truediv 100 100 = Inr (Num 1)"
  by (simp_all add: int_truediv_def round_zero round64_half round64_one)

lemma np_add_same_length: "length a = length b \<Longrightarrow> np_add a b = Inr (map2 (fadd binary32) a b)"
  by (simp add: np_add_def)

lemma length_np_scale: "length (np_scale v c) = length v"
  by (simp add: np_scale_def)

lemma map2_scale:
  "map2 (fadd binary32) (np_scale v1 c) (np_scale v2 d)
     = map2 (\<lambda>x y. fadd binary32 (fmul binary32 x (to_float32 c)) (fmul binary32 y (to_float32 d))) v1 v2"
  by (auto simp: np_scale_def zip_map_map)

lemma blended_voice_eq:
  assumes "length (tts_voice1 t) = length (tts_voice2 t)"
    and "tts_blend_value t = 0 \<or> tts_blend_value t = 50 \<or> tts_blend_value t = 100"
  shows "blended_voice t =
           Inr (map2 (\<lambda>x y. fadd binary32
                      (fmul binary32 x (Num (of_int (tts_blend_value t) / 100)))
                      (fmul binary32 y (Num (1 - of_int (tts_blend_value t) / 100))))
                  (tts_voice1 t) (tts_voice2 t))"
proof -
  consider "tts_blend_value t = 0" | "tts_blend_value t = 50" | "tts_blend_value t = 100"
    using assms(2) by blast
  then show ?thesis
  proof cases
    case 1
    then show ?thesis
      using assms(1)
      by (simp add: blended_voice_def blend_constants np_add_same_length length_np_scale
            map2_scale round_zero round64_one round32_one)
  next
    case 2
    have "(1::rat) - 1 / 2 = 1 / 2" by simp
    then show ?thesis
      using assms(1) 2
      by (simp add: blended_voice_def blend_constants np_add_same_length length_np_scale
            map2_scale round64_half round32_half)
  next
    case 3
    then show ?thesis
      using assms(1)
      by (simp add: blended_voice_def blend_constants np_add_same_length length_np_scale
            map2_scale round_zero round64_one round32_one)
  qed
qed

lemma keep_second:
  "finite32 x \<Longrightarrow> finite32 y \<Longrightarrow>
     fadd binary32 (fmul binary32 x (Num 0)) (fmul binary32 y (Num 1)) = y"
  by (cases x; cases y) (simp_all add: round_zero)

lemma keep_first:
  "finite32 x \<Longrightarrow> finite32 y \<Longrightarrow>
     fadd binary32 (fmul binary32 x (Num 1)) (fmul binary32 y (Num 0)) = x"
  by (cases x; cases y) (simp_all add: round_zero)

lemma map2_keep_second:
  "length xs = length ys \<Longrightarrow> list_all finite32 xs \<Longrightarrow> list_all finite32 ys \<Longrightarrow>
     map2 (\<lambda>x y. fadd binary32 (fmul binary32 x (Num 0)) (fmul binary32 y (Num 1))) xs ys = ys"
  by (induction xs ys rule: list_induct2) (simp_all add: keep_second)

lemma map2_keep_first:
  "length xs = length ys \<Longrightarrow> list_all finite32 xs \<Longrightarrow> list_all finite32 ys \<Longrightarrow>
     map2 (\<lambda>x y. fadd binary32 (fmul binary32 x (Num 1)) (fmul binary32 y (Num 0))) xs ys = xs"
  by (induction xs ys rule: list_induct2) (simp_all add: keep_first)

text \<open>
  Voices \<open>1\<close> and \<open>2 ^ - 30\<close>, both \<^verbatim>\<open>float32\<close> numbers, at a blend of 50: the exact
  interpolation is \<open>1 / 2 + 2 ^ - 31\<close>, which \<^verbatim>\<open>float32\<close> cannot hold, and the voice
  passed to \<^verbatim>\<open>create\<close> is \<open>1 / 2\<close>.
\<close>

theorem blend_rounds_at_50:
  "list_all finite32 (tts_voice1 uneven_request)
   \<and> list_all finite32 (tts_voice2 uneven_request)
   \<and> create_call uneven_request = Inr (py ''hi'', [Num (1 / 2)], 1, py ''en-us'')
   \<and> Num (1 * (50 / 100) + (1 / 2 ^ 30) * (1 - 50 / 100)) \<noteq> Num (1 / 2)"
  by code_simp

text \<open>
  C5, amended. For two \<^verbatim>\<open>float32\<close> embeddings of one shape and a blend percentage
  \<open>b\<close> of 0, 50 or 100, the voice with which \<^verbatim>\<open>TTSThread.run\<close> calls the model's
  \<^verbatim>\<open>create\<close> is, component by component, \<open>v1 * (b / 100) + v2 * (1 - b / 100)\<close>
  evaluated in \<^verbatim>\<open>float32\<close> arithmetic, each product and the sum rounded to nearest. For
  finite embeddings this is the second voice at 0 and the first voice at 100.
\<close>

theorem blend_is_float32_interpolation:
  assumes "length (tts_voice1 t) = length (tts_voice2 t)"
    and "tts_blend_value t = 0 \<or> tts_blend_value t = 50 \<or> tts_blend_value t = 100"
  shows "TTSThread_run t =
           (case create (tts_kokoro t) (tts_text t)
                   (map2 (\<lambda>x y. fadd binary32
                             (fmul binary32 x (Num (of_int (tts_blend_value t) / 100)))
                             (fmul binary32 y (Num (1 - of_int (tts_blend_value t) / 100))))
                      (tts_voice1 t) (tts_voice2 t))
                   1 (py ''en-us'') of
              Inl e \<Rightarrow> (None, [Error_generating_TTS e])
            | Inr (samples, sample_rate) \<Rightarrow> (Some (samples, c_int sample_rate), []))
       \<and> (list_all finite32 (tts_voice1 t) \<and> list_all finite32 (tts_voice2 t) \<longrightarrow>
            (tts_blend_value t = 0 \<longrightarrow>
               create_call t = Inr (tts_text t, tts_voice2 t, 1, py ''en-us''))
          \<and> (tts_blend_value t = 100 \<longrightarrow>
               create_call t = Inr (tts_text t, tts_voice1 t, 1, py ''en-us'')))"
proof -
  note bv = blended_voice_eq[OF assms]
  have run: "TTSThread_run t =
           (case create (tts_kokoro t) (tts_text t)
                   (map2 (\<lambda>x y. fadd binary32
                             (fmul binary32 x (Num (of_int (tts_blend_value t) / 100)))
                             (fmul binary32 y (Num (1 - of_int (tts_blend_value t) / 100))))
                      (tts_voice1 t) (tts_voice2 t))
                   1 (py ''en-us'') of
              Inl e \<Rightarrow> (None, [Error_generating_TTS e])
            | Inr (samples, sample_rate) \<Rightarrow> (Some (samples, c_int sample_rate), []))"
    by (simp add: TTSThread_run_def create_call_def bv)
  have zero: "create_call t = Inr (tts_text t, tts_voice2 t, 1, py ''en-us'')"
    if "list_all finite32 (tts_voice1 t)" "list_all finite32 (tts_voice2 t)" "tts_blend_value t = 0"
    using bv that map2_keep_second[OF assms(1) that(1,2)] by (simp add: create_call_def)
  have full: "create_call t = Inr (tts_text t, tts_voice1 t, 1, py ''en-us'')"
    if "list_all finite32 (tts_voice1 t)" "list_all finite32 (tts_voice2 t)" "tts_blend_value t = 100"
    using bv that map2_keep_first[OF assms(1) that(1,2)] by (simp add: create_call_def)
  from run zero full show ?thesis by blast
qed

theorem blend_is_float32_interpolation_witness:
  "length [Num 1] = length [Num 3]
   \<and> list_all finite32 [Num 1] \<and> list_all finite32 [Num 3]
   \<and> create_call \<lparr>tts_kokoro = demo_kokoro, tts_text = py ''hi'', tts_voice1 = [Num 1],
                   tts_voice2 = [Num 3], tts_blend_value = 0\<rparr>
       = Inr (py ''hi'', [Num 3], 1, py ''en-us'')"
  using blend_is_float32_interpolation
          [of "\<lparr>tts_kokoro = demo_kokoro, tts_text = py ''hi'', tts_voice1 = [Num 1],
                tts_voice2 = [Num 3], tts_blend_value = 0\<rparr>"]
  by (simp add: round32_one round32_three)

text \<open>
  C7. When the model's \<^verbatim>\<open>create\<close> raises during a request, the synthesis thread
  prints the error and emits nothing; its completion hands no buffer to the playback
  queue, raises nothing in the application, and the execution goes on with the events
  that follow.
\<close>

theorem synthesis_error_is_dropped:
  assumes "i < length (tts_threads a)"
    and "create_call (tts_threads a ! i) = Inr (tx, bv, speed, lang)"
    and "create (tts_kokoro (tts_threads a ! i)) tx bv speed lang = Inl e"
  shows "TTSThread_run (tts_threads a ! i) = (None, [Error_generating_TTS e])
       \<and> step U sd (Complete i) a =
           (a\<lparr>tts_threads := take i (tts_threads a) @ drop (Suc i) (tts_threads a),
              stdout := stdout a @ [Error_generating_TTS e]\<rparr>, None)
       \<and> audio_thread (fst (step U sd (Complete i) a)) = audio_thread a
       \<and> exec U sd (Complete i # es) a = exec U sd es (fst (step U sd (Complete i) a))"
proof -
  have r: "TTSThread_run (tts_threads a ! i) = (None, [Error_generating_TTS e])"
    using assms(2,3) by (simp add: TTSThread_run_def)
  then have s: "step U sd (Complete i) a =
           (a\<lparr>tts_threads := take i (tts_threads a) @ drop (Suc i) (tts_threads a),
              stdout := stdout a @ [Error_generating_TTS e]\<rparr>, None)"
    using assms(1) by simp
  from r s show ?thesis by simp
qed

lemma failing_request_call:
  "create_call (tts_threads failing_request ! 0)
     = Inr (py ''hi'', [Num 1, Num 2], 1, py ''en-us'')"
  by code_simp

theorem synthesis_error_is_dropped_witness:
  "step ascii_ucd working_device (Complete 0) failing_request
   = (failing_request
        \<lparr>tts_threads := [],
          stdout := [Error_generating_TTS (External (py ''inference failed''))]\<rparr>, None)"
  using synthesis_error_is_dropped
          [of 0 failing_request "py ''hi''" "[Num 1, Num 2]" 1 "py ''en-us''"
              "External (py ''inference failed'')" ascii_ucd working_device "[]"]
        failing_request_call
  by (simp add: failing_request_def failing_kokoro_def TTSApp_init_def)

section \<open>Preferences at startup\<close>

lemma findText_finds:
  "t \<in> set xs \<Longrightarrow> \<exists>i. findText xs t = Some i \<and> i < length xs \<and> xs ! i = t"
  by (induction xs) auto

lemma currentText_setCurrentText:
  "t \<in> set xs \<Longrightarrow> currentText (setCurrentText t (addItems xs)) = t"
  using findText_finds[of t xs]
  by (auto simp: currentText_def setCurrentText_def addItems_def)

text \<open>
  What \<^verbatim>\<open>load_config\<close> does catch: with at least two voices in the catalog, a missing
  file and a file that is not JSON leave the interface on the first voice, the second
  voice and a blend of 50.
\<close>

lemma defaults_when_missing_or_not_json:
  assumes "2 \<le> length voices"
    and "r = FileNotFoundError \<or> r = JSONDecodeError"
  shows "\<exists>p. startup voices r = Inr p
           \<and> currentText (voice1_combo p) = voices ! 0
           \<and> currentText (voice2_combo p) = voices ! 1
           \<and> blend_slider p = 50"
proof -
  have c: "load_config r = Inr (Dict Map.empty)" using assms(2) by auto
  have "voices ! 0 \<in> set voices" "voices ! 1 \<in> set voices"
    using assms(1) by (auto intro!: nth_mem)
  then show ?thesis
    using assms(1)
    by (auto simp: startup_def c init_ui_def dict_get_def currentText_setCurrentText setValue_def)
qed

text \<open>
  C9. Three malformed configuration files on which the application does not start, where
  the defaults were to be loaded: a file that is not UTF-8, whose \<^verbatim>\<open>UnicodeDecodeError\<close>
  is none of the two exceptions \<^verbatim>\<open>load_config\<close> catches; a file holding JSON that is no
  object, on which \<^verbatim>\<open>init_ui\<close> finds no \<^verbatim>\<open>get\<close>; and an object whose blend is a string,
  which \<^verbatim>\<open>setValue\<close> refuses.
\<close>

theorem malformed_config_crashes:
  "startup voices (Raises UnicodeDecodeError) = Inl UnicodeDecodeError
   \<and> startup voices (Parsed NotDict) = Inl AttributeError
   \<and> startup voices (Parsed (Dict [py ''blend'' \<mapsto> JStr (py ''high'')])) = Inl TypeError"
  by (simp add: startup_def init_ui_def dict_get_def)

section \<open>Submitting text\<close>

text \<open>
  C3. A text submitted while the model is still loading: \<^verbatim>\<open>hi\<close> is sanitized to
  itself, \<^verbatim>\<open>handle_input\<close> appends it to the log, and \<^verbatim>\<open>play_audio\<close> then fails on
  \<^verbatim>\<open>self.kokoro\<close> before any synthesis thread is started. The log has the entry, the
  request is not dispatched.
\<close>

theorem logged_but_not_dispatched:
  "log_file (fst (handle_input U now (a\<lparr>kokoro := None, text_input := py ''hi''\<rparr>)))
      = log_file a @ [now @ py '' hi'' @ [10]]
   \<and> tts_threads (fst (handle_input U now (a\<lparr>kokoro := None, text_input := py ''hi''\<rparr>)))
      = tts_threads a"
  by (simp add: handle_input_def sanitize_hi play_audio_def log_text_def)

text \<open>
  C4. The same submission raises \<^verbatim>\<open>AttributeError\<close> out of the slot, on the interaction
  thread: right after \<^verbatim>\<open>__init__\<close> an execution that begins with a submission ends there
  with the exception.
\<close>

theorem not_ready_raises:
  "snd (handle_input U now (a\<lparr>kokoro := None, text_input := py ''hi''\<rparr>)) = Some AttributeError
   \<and> snd (exec U sd (Submit (py ''hi'') now # es) (TTSApp_init p file)) = Some AttributeError"
  by (simp add: handle_input_def sanitize_hi play_audio_def log_text_def TTSApp_init_def
        split: prod.split)

section \<open>The order of playback\<close>

lemma play_audio_audio_thread: "audio_thread (fst (play_audio U text a)) = audio_thread a"
  by (simp add: play_audio_def split: option.split sum.split)

lemma handle_input_audio_thread: "audio_thread (fst (handle_input U now a)) = audio_thread a"
  by (simp add: handle_input_def Let_def play_audio_audio_thread log_text_def)

lemma step_conserves: "handed_over (fst (step U sd e a)) = handed_over a @ completes e a"
proof (cases e)
  case (Submit typed now)
  then show ?thesis by (simp add: handed_over_def handle_input_audio_thread)
next
  case (ModelLoaded k)
  then show ?thesis by (simp add: handed_over_def)
next
  case (Complete i)
  then show ?thesis
    by (auto simp: handed_over_def play_audio_output_def add_to_queue_def
             split: prod.split option.split)
next
  case Playback
  then show ?thesis by (simp add: handed_over_def worker_step_conserves)
qed

lemma exec_conserves:
  "handed_over (fst (exec U sd es a)) = handed_over a @ completion_order U sd es a"
proof (induction es arbitrary: a)
  case Nil
  show ?case by simp
next
  case (Cons e es)
  obtain a' x where st: "step U sd e a = (a', x)" by (cases "step U sd e a")
  have c: "handed_over a' = handed_over a @ completes e a"
    using step_conserves[of U sd e a] st by simp
  show ?case
  proof (cases x)
    case None
    then show ?thesis using st c Cons.IH[of a'] by simp
  next
    case (Some y)
    then show ?thesis using st c by simp
  qed
qed

text \<open>
  Two requests, \<^verbatim>\<open>a\<close> then \<^verbatim>\<open>b\<close>, of which the second completes first: the audio of
  \<^verbatim>\<open>b\<close> is played before the audio of \<^verbatim>\<open>a\<close>.
\<close>

theorem completion_order_counterexample:
  "played (device (audio_thread
      (fst (exec ascii_ucd working_device overlap (TTSApp_init demo_prefs None)))))
     = [([98], 24000), ([97], 24000)]
   \<and> submission_order ascii_ucd working_device overlap (TTSApp_init demo_prefs None)
     = [([97], 24000), ([98], 24000)]
   \<and> played (device (audio_thread
      (fst (exec ascii_ucd working_device overlap (TTSApp_init demo_prefs None)))))
     \<noteq> submission_order ascii_ucd working_device overlap (TTSApp_init demo_prefs None)"
  by (simp add: overlap_def TTSApp_init_def demo_prefs_def demo_kokoro_def handle_input_def
      sanitize_a_b play_audio_def log_text_def TTSThread_run_def create_call_def
      blended_voice_def blend_constants np_add_def np_scale_def c_int_def
      play_audio_output_def add_to_queue_def working_device_def
      worker_step_def AudioThread_start_def dispatches_def List.map_filter_def Let_def)

text \<open>
  C2, amended. In every execution the buffers are handed to the playback queue, and
  played, in the order in which their synthesis completed: what has been played and what
  still waits in the queue is, together, the list of buffers in completion order, so the
  played buffers are a prefix of it.
\<close>

theorem playback_follows_completion_order:
  "played (device (audio_thread (fst (exec U sd es (TTSApp_init p file)))))
     @ audio_queue (audio_thread (fst (exec U sd es (TTSApp_init p file))))
   = completion_order U sd es (TTSApp_init p file)
   \<and> prefix (played (device (audio_thread (fst (exec U sd es (TTSApp_init p file))))))
        (completion_order U sd es (TTSApp_init p file))"
proof -
  have "handed_over (TTSApp_init p file) = []"
    by (simp add: handed_over_def TTSApp_init_def AudioThread_start_def)
  then have "handed_over (fst (exec U sd es (TTSApp_init p file)))
               = completion_order U sd es (TTSApp_init p file)"
    by (simp add: exec_conserves)
  then show ?thesis unfolding handed_over_def by (metis prefixI)
qed

end
